theory Spec2Isabelle
  imports Complex_Main "HOL-Library.Char_ord" "HOL-Library.List_Lexorder"
begin

section \<open>Numbers\<close>

text \<open>
  The script computes costs and percentages with Python floats. The development reads
  these floats as exact rationals: a rate such as \<^verbatim>\<open>0.30\<close> is the rational 3/10, and
  \<^verbatim>\<open>round(x, n)\<close> is rounding to the nearest multiple of \<open>10\<^sup>-\<^sup>n\<close>, a tie going to the
  even neighbour (Python's rule for \<^verbatim>\<open>round\<close>). Token counts are Python integers.
\<close>

datatype py_error = ZeroDivisionError

definition round_half_even :: "rat \<Rightarrow> int" where
  "round_half_even x =
     (let f = \<lfloor>x\<rfloor>; d = x - of_int f
      in if d < 1 / 2 then f
         else if 1 / 2 < d then f + 1
         else if even f then f else f + 1)"

definition py_round :: "rat \<Rightarrow> nat \<Rightarrow> rat" where
  "py_round x n = of_int (round_half_even (x * 10 ^ n)) / 10 ^ n"

definition truediv :: "rat \<Rightarrow> rat \<Rightarrow> py_error + rat" where
  "truediv a b = (if b = 0 then Inl ZeroDivisionError else Inr (a / b))"

section \<open>Cost model\<close>

record pricing =
  input_rate :: rat
  output_rate :: rat
  cached_input_rate :: rat

definition MODEL_PRICING :: "(string \<times> pricing) list" where
  "MODEL_PRICING =
    [(''claude-opus-4.6'', \<lparr>input_rate = 15, output_rate = 75, cached_input_rate = 3 / 2\<rparr>),
     (''claude-opus-4.5'', \<lparr>input_rate = 15, output_rate = 75, cached_input_rate = 3 / 2\<rparr>),
     (''claude-sonnet-4.6'', \<lparr>input_rate = 3, output_rate = 15, cached_input_rate = 3 / 10\<rparr>),
     (''claude-sonnet-4.5'', \<lparr>input_rate = 3, output_rate = 15, cached_input_rate = 3 / 10\<rparr>),
     (''claude-sonnet-4'', \<lparr>input_rate = 3, output_rate = 15, cached_input_rate = 3 / 10\<rparr>),
     (''claude-haiku-4.5'', \<lparr>input_rate = 4 / 5, output_rate = 4, cached_input_rate = 2 / 25\<rparr>),
     (''gpt-5.3-codex'', \<lparr>input_rate = 2, output_rate = 8, cached_input_rate = 1 / 2\<rparr>),
     (''gpt-5.2-codex'', \<lparr>input_rate = 2, output_rate = 8, cached_input_rate = 1 / 2\<rparr>),
     (''gpt-5.2'', \<lparr>input_rate = 2, output_rate = 8, cached_input_rate = 1 / 2\<rparr>),
     (''gpt-5.1-codex-max'', \<lparr>input_rate = 2, output_rate = 8, cached_input_rate = 1 / 2\<rparr>),
     (''gpt-5.1-codex'', \<lparr>input_rate = 2, output_rate = 8, cached_input_rate = 1 / 2\<rparr>),
     (''gpt-5.1'', \<lparr>input_rate = 2, output_rate = 8, cached_input_rate = 1 / 2\<rparr>),
     (''gpt-5.1-codex-mini'', \<lparr>input_rate = 2 / 5, output_rate = 8 / 5, cached_input_rate = 1 / 10\<rparr>),
     (''gpt-5-mini'', \<lparr>input_rate = 2 / 5, output_rate = 8 / 5, cached_input_rate = 1 / 10\<rparr>),
     (''gpt-4.1'', \<lparr>input_rate = 2, output_rate = 8, cached_input_rate = 1 / 2\<rparr>),
     (''gemini-3-pro-preview'', \<lparr>input_rate = 5 / 4, output_rate = 10, cached_input_rate = 31 / 100\<rparr>)]"

definition DEFAULT_PRICING :: pricing where
  "DEFAULT_PRICING = \<lparr>input_rate = 3, output_rate = 15, cached_input_rate = 3 / 10\<rparr>"

text \<open>\<^verbatim>\<open>MODEL_PRICING.get(model, DEFAULT_PRICING)\<close>\<close>

definition pricing_for :: "string \<Rightarrow> pricing" where
  "pricing_for model =
     (case map_of MODEL_PRICING model of None \<Rightarrow> DEFAULT_PRICING | Some p \<Rightarrow> p)"

definition compute_cost :: "int \<Rightarrow> int \<Rightarrow> int \<Rightarrow> string \<Rightarrow> rat" where
  "compute_cost input_tokens output_tokens cache_read_tokens model =
     (let pr = pricing_for model;
          fresh_input = max 0 (input_tokens - cache_read_tokens);
          cost = of_int fresh_input * input_rate pr / 1000000
               + of_int cache_read_tokens * cached_input_rate pr / 1000000
               + of_int output_tokens * output_rate pr / 1000000
      in py_round cost 6)"

text \<open>What every row of the price table satisfies: no rate is negative, and a cached
  input token is never dearer than a fresh one.\<close>

definition rates_ok :: "pricing \<Rightarrow> bool" where
  "rates_ok p =
     (0 \<le> input_rate p \<and> 0 \<le> output_rate p \<and> 0 \<le> cached_input_rate p
      \<and> cached_input_rate p \<le> input_rate p)"

section \<open>Text\<close>

text \<open>
  Strings are lists of characters and are taken to be ASCII text: \<^verbatim>\<open>\s\<close> and
  \<^verbatim>\<open>str.strip\<close> see the ASCII white space Python knows (code points 9 to 13 and 28 to
  32), \<^verbatim>\<open>\d\<close> the digits 0 to 9, and \<^verbatim>\<open>str.lower\<close> changes the letters A to Z only.
  Time stamps are strings and are compared the way Python compares strings, character
  by character.
\<close>

type_synonym timestamp = string

definition is_space :: "char \<Rightarrow> bool" where
  "is_space c = (let n = (of_char c :: nat) in (9 \<le> n \<and> n \<le> 13) \<or> (28 \<le> n \<and> n \<le> 32))"

definition is_digit :: "char \<Rightarrow> bool" where
  "is_digit c = (let n = (of_char c :: nat) in 48 \<le> n \<and> n \<le> 57)"

definition lower_char :: "char \<Rightarrow> char" where
  "lower_char c =
     (let n = (of_char c :: nat) in if 65 \<le> n \<and> n \<le> 90 then char_of (n + 32) else c)"

definition lower :: "string \<Rightarrow> string" where
  "lower s = map lower_char s"

text \<open>\<^verbatim>\<open>s.startswith(p)\<close> and \<^verbatim>\<open>kw in s\<close>\<close>

fun startswith :: "string \<Rightarrow> string \<Rightarrow> bool" where
  "startswith s [] = True"
| "startswith [] (p # ps) = False"
| "startswith (c # s) (p # ps) = (c = p \<and> startswith s ps)"

fun contains :: "string \<Rightarrow> string \<Rightarrow> bool" where
  "contains [] kw = startswith [] kw"
| "contains (c # s) kw = (startswith (c # s) kw \<or> contains s kw)"

text \<open>\<^verbatim>\<open>any(kw in s for kw in kws)\<close>\<close>

definition any_in :: "string list \<Rightarrow> string \<Rightarrow> bool" where
  "any_in kws s = list_ex (contains s) kws"

text \<open>\<^verbatim>\<open>int(ds)\<close> for a string of digits\<close>

definition int_of_digits :: "string \<Rightarrow> nat" where
  "int_of_digits ds = foldl (\<lambda>n d. 10 * n + (of_char d - 48)) 0 ds"

text \<open>
  The pieces of the two regular expressions of the tool-completion handler. Each piece is
  greedy, and no piece can give characters back to the next one (a digit is not white
  space, white space is no letter), so a match at a position is found without
  backtracking: \<open>lit\<close> reads a literal, \<open>spaces\<close> reads \<^verbatim>\<open>\s*\<close>, \<open>digits1\<close> reads
  \<^verbatim>\<open>(\d+)\<close>; each returns what is left of the text.
\<close>

definition lit :: "string \<Rightarrow> string \<Rightarrow> string option" where
  "lit p s = (if startswith s p then Some (drop (length p) s) else None)"

definition spaces :: "string \<Rightarrow> string" where
  "spaces s = dropWhile is_space s"

definition spaces1 :: "string \<Rightarrow> string option" where
  "spaces1 s = (case s of [] \<Rightarrow> None | c # r \<Rightarrow> if is_space c then Some (spaces r) else None)"

definition digits1 :: "string \<Rightarrow> (string \<times> string) option" where
  "digits1 s =
     (if takeWhile is_digit s = [] then None
      else Some (takeWhile is_digit s, dropWhile is_digit s))"

text \<open>\<^verbatim>\<open>(\d+)\s+Error\(s\)\<close> matched at the head of the text: the number it captures\<close>

definition error_match_here :: "string \<Rightarrow> nat option" where
  "error_match_here s =
     (case digits1 s of
        None \<Rightarrow> None
      | Some (ds, r1) \<Rightarrow>
          (case spaces1 r1 of
             None \<Rightarrow> None
           | Some r2 \<Rightarrow> (case lit ''Error(s)'' r2 of None \<Rightarrow> None | Some _ \<Rightarrow> Some (int_of_digits ds))))"

text \<open>\<^verbatim>\<open>re.search\<close>: the match at the leftmost position that has one\<close>

fun error_match :: "string \<Rightarrow> nat option" where
  "error_match [] = error_match_here []"
| "error_match (c # s) =
     (case error_match_here (c # s) of Some n \<Rightarrow> Some n | None \<Rightarrow> error_match s)"

text \<open>\<^verbatim>\<open>Passed!\s*-\s*Failed:\s*(\d+),\s*Passed:\s*(\d+)\<close> at the head of the text: the
  two numbers, failed first\<close>

definition test_passed_match_here :: "string \<Rightarrow> (nat \<times> nat) option" where
  "test_passed_match_here s =
     (case lit ''Passed!'' s of None \<Rightarrow> None | Some r1 \<Rightarrow>
      (case lit ''-'' (spaces r1) of None \<Rightarrow> None | Some r2 \<Rightarrow>
       (case lit ''Failed:'' (spaces r2) of None \<Rightarrow> None | Some r3 \<Rightarrow>
        (case digits1 (spaces r3) of None \<Rightarrow> None | Some (failed, r4) \<Rightarrow>
         (case lit '','' r4 of None \<Rightarrow> None | Some r5 \<Rightarrow>
          (case lit ''Passed:'' (spaces r5) of None \<Rightarrow> None | Some r6 \<Rightarrow>
           (case digits1 (spaces r6) of None \<Rightarrow> None | Some (passed, _) \<Rightarrow>
              Some (int_of_digits failed, int_of_digits passed))))))))"

fun test_passed_match :: "string \<Rightarrow> (nat \<times> nat) option" where
  "test_passed_match [] = test_passed_match_here []"
| "test_passed_match (c # s) =
     (case test_passed_match_here (c # s) of Some r \<Rightarrow> Some r | None \<Rightarrow> test_passed_match s)"

section \<open>Event stream parser\<close>

text \<open>
  \<open>parse_events\<close> reads \<^verbatim>\<open>events.jsonl\<close> line by line, skips the lines that are blank
  or are not JSON, and dispatches on the \<^verbatim>\<open>type\<close> of each decoded object. The
  development starts from the decoded objects: an \<open>event\<close> holds the fields the handler of
  its type reads, a missing field already replaced by the default the handler gives it.
\<close>

datatype event =
    Session_start string string "timestamp option" string string string string timestamp
      \<comment> \<open>sessionId, copilotVersion, startTime, cwd, gitRoot, branch, repository; timestamp\<close>
  | User_message string timestamp
      \<comment> \<open>content; timestamp\<close>
  | Assistant_turn_start string timestamp
      \<comment> \<open>turnId; timestamp\<close>
  | Assistant_turn_end timestamp
  | Assistant_message "string list"
      \<comment> \<open>the names of the toolRequests\<close>
  | Tool_execution_start string string string string timestamp
      \<comment> \<open>toolName, toolCallId, arguments.command, arguments.description; timestamp\<close>
  | Tool_execution_complete string bool string timestamp
      \<comment> \<open>toolCallId, success, the text of result.content; timestamp\<close>
  | Subagent_started string string string timestamp
      \<comment> \<open>toolCallId, agentName, agentDisplayName; timestamp\<close>
  | Subagent_completed string timestamp
      \<comment> \<open>toolCallId; timestamp\<close>
  | Session_compaction_start timestamp
  | Session_compaction_complete "int option" bool timestamp
      \<comment> \<open>preCompactionTokens, success; timestamp\<close>
  | Session_error string string timestamp
      \<comment> \<open>errorType, message; timestamp\<close>
  | Session_mode_changed timestamp
  | Session_plan_changed
  | Session_task_complete
  | Other_event string
      \<comment> \<open>any other type\<close>

record session_info =
  si_id :: string
  si_copilotVersion :: string
  si_startTime :: timestamp
  si_cwd :: string
  si_gitRoot :: string
  si_branch :: string
  si_repository :: string

record user_message =
  content_preview :: string
  um_timestamp :: timestamp
  full_length :: nat

record turn =
  turnId :: string
  turn_startTime :: timestamp
  turn_endTime :: "timestamp option"
  tool_calls :: "string list"
  message_count :: nat

record tool_start =
  ts_name :: string
  ts_timestamp :: timestamp
  ts_toolCallId :: string

record tool_complete =
  tc_toolCallId :: string
  tc_name :: string
  tc_success :: bool
  tc_startTime :: timestamp
  tc_endTime :: timestamp

record subagent =
  sa_toolCallId :: string
  sa_name :: string
  sa_displayName :: string
  sa_startTime :: timestamp
  sa_endTime :: "timestamp option"

record compaction =
  cp_startTime :: timestamp
  cp_endTime :: "timestamp option"
  cp_preTokens :: "int option"
  cp_success :: "bool option"

record session_error =
  err_type :: string
  err_message :: string
  err_timestamp :: timestamp

datatype dev_loop_type = Build | Test

text \<open>
  A dev-loop dictionary. The keys written when the tool completes are absent (\<open>None\<close>)
  until then. (\<^verbatim>\<open>duration_ms\<close>, which \<^verbatim>\<open>compute_duration_ms\<close> derives from the
  two time stamps by parsing them as dates, is left out.)
\<close>

record dev_loop_action =
  dl_type :: dev_loop_type
  dl_command :: string
  dl_description :: string
  dl_startTime :: timestamp
  dl_endTime :: "timestamp option"
  dl_success :: "bool option"
  dl_result_preview :: "string option"
  dl_test_failed :: "nat option"
  dl_test_passed :: "nat option"

text \<open>The dictionary \<^verbatim>\<open>events\<close>; \<open>'d\<close> is what its \<^verbatim>\<open>dev_loop\<close> list holds.\<close>

record 'd events =
  session_info :: "session_info option"
  user_messages :: "user_message list"
  turns :: "turn list"
  tool_starts :: "tool_start list"
  tool_completes :: "tool_complete list"
  subagents :: "subagent list"
  compactions :: "compaction list"
  errors :: "session_error list"
  mode_changes :: "timestamp list"
  plan_changes :: nat
  task_completes :: nat
  dev_loop :: "'d list"

text \<open>
  An entry of \<^verbatim>\<open>tool_start_map\<close>. Its \<^verbatim>\<open>dev_loop\<close> key, when present, holds a
  dictionary that the completion handler changes in place and also appends to
  \<^verbatim>\<open>events["dev_loop"]\<close>: a second completion for the same tool call changes the
  dictionary the list already holds. So the dictionaries live in a store, and the entry
  and the list hold addresses of it.
\<close>

record start_info =
  st_name :: string
  st_timestamp :: timestamp
  st_dev_loop :: "nat option"

text \<open>The state of the loop of \<open>parse_events\<close>: \<^verbatim>\<open>events\<close>, the two local variables,
  and the store of dev-loop dictionaries with its next free address.\<close>

record parser = "nat events" +
  current_turn :: "turn option"
  tool_start_map :: "string \<rightharpoonup> start_info"
  dl_store :: "nat \<Rightarrow> dev_loop_action"
  dl_next :: nat

definition build_keywords :: "string list" where
  "build_keywords =
     [''dotnet build'', ''dotnet msbuild'', ''msbuild'', ''npm run build'',
      ''cargo build'', ''go build'', ''make'', ''cmake'', ''gradle build'',
      ''mvn compile'', ''mvn package'', ''tsc'', ''webpack'']"

definition test_keywords :: "string list" where
  "test_keywords =
     [''dotnet test'', ''npm test'', ''npm run test'', ''cargo test'',
      ''go test'', ''pytest'', ''jest'', ''mocha'', ''xunit'', ''nunit'',
      ''gradle test'', ''mvn test'']"

definition is_build :: "string \<Rightarrow> bool" where
  "is_build cmd = any_in build_keywords (lower cmd)"

definition is_test :: "string \<Rightarrow> bool" where
  "is_test cmd = any_in test_keywords (lower cmd)"

definition failure_phrases :: "string list" where
  "failure_phrases =
     [''build failed'', ''error(s)'', ''compilation error'',
      ''failed!'', ''error cs'', ''error ts'', ''error:'', ''exited with exit code 1'',
      ''exited with exit code 2'']"

definition test_failure_phrases :: "string list" where
  "test_failure_phrases = [''test run failed'', ''tests failed'']"

text \<open>\<^verbatim>\<open>build_failed\<close>: the phrases decide, unless the error count is there to decide.\<close>

definition build_failed :: "string \<Rightarrow> bool" where
  "build_failed result_content =
     (case error_match result_content of
        Some n \<Rightarrow> 0 < n
      | None \<Rightarrow> any_in failure_phrases (lower result_content))"

definition test_failed :: "string \<Rightarrow> bool" where
  "test_failed result_content =
     (case test_passed_match result_content of
        Some (failed, passed) \<Rightarrow> 0 < failed
      | None \<Rightarrow> any_in test_failure_phrases (lower result_content))"

text \<open>What the completion handler writes into the pending dictionary \<open>dl\<close>.\<close>

definition finalize :: "dev_loop_action \<Rightarrow> bool \<Rightarrow> string \<Rightarrow> timestamp \<Rightarrow> dev_loop_action" where
  "finalize dl success result_content ts =
     (let dl1 = dl\<lparr>dl_endTime := Some ts,
                    dl_success := Some (success \<and> \<not> build_failed result_content
                                        \<and> \<not> test_failed result_content),
                    dl_result_preview := Some (take 200 result_content)\<rparr>
      in case test_passed_match result_content of
           Some (failed, passed) \<Rightarrow> dl1\<lparr>dl_test_failed := Some failed, dl_test_passed := Some passed\<rparr>
         | None \<Rightarrow> dl1)"

text \<open>\<^verbatim>\<open>subagent.completed\<close>: the first subagent with this id and no end time gets one.\<close>

fun complete_subagent :: "string \<Rightarrow> timestamp \<Rightarrow> subagent list \<Rightarrow> subagent list" where
  "complete_subagent tcid ts [] = []"
| "complete_subagent tcid ts (sa # sas) =
     (if sa_toolCallId sa = tcid \<and> sa_endTime sa = None
      then sa\<lparr>sa_endTime := Some ts\<rparr> # sas
      else sa # complete_subagent tcid ts sas)"

text \<open>One pass of the loop body, for one decoded event.\<close>

fun handle_event :: "parser \<Rightarrow> event \<Rightarrow> parser" where
  "handle_event st (Session_start sid ver start cwd git_root branch repo ts) =
     st\<lparr>session_info := Some
          \<lparr>si_id = sid, si_copilotVersion = ver,
           si_startTime = (case start of None \<Rightarrow> ts | Some t \<Rightarrow> t),
           si_cwd = cwd, si_gitRoot = git_root, si_branch = branch, si_repository = repo\<rparr>\<rparr>"
| "handle_event st (User_message content ts) =
     st\<lparr>user_messages := user_messages st @
          [\<lparr>content_preview = take 200 content, um_timestamp = ts, full_length = length content\<rparr>]\<rparr>"
| "handle_event st (Assistant_turn_start tid ts) =
     st\<lparr>current_turn := Some
          \<lparr>turnId = tid, turn_startTime = ts, turn_endTime = None, tool_calls = [],
           message_count = 0\<rparr>\<rparr>"
| "handle_event st (Assistant_turn_end ts) =
     (case current_turn st of
        Some t \<Rightarrow> st\<lparr>turns := turns st @ [t\<lparr>turn_endTime := Some ts\<rparr>], current_turn := None\<rparr>
      | None \<Rightarrow> st)"
| "handle_event st (Assistant_message tool_reqs) =
     (case current_turn st of
        Some t \<Rightarrow> st\<lparr>current_turn := Some
                     (t\<lparr>message_count := message_count t + 1,
                        tool_calls := tool_calls t @ tool_reqs\<rparr>)\<rparr>
      | None \<Rightarrow> st)"
| "handle_event st (Tool_execution_start tool_name tool_call_id cmd desc ts) =
     (let info = \<lparr>st_name = tool_name, st_timestamp = ts, st_dev_loop = None\<rparr>;
          st1 = st\<lparr>tool_start_map := (tool_start_map st)(tool_call_id \<mapsto> info),
                   tool_starts := tool_starts st @
                     [\<lparr>ts_name = tool_name, ts_timestamp = ts, ts_toolCallId = tool_call_id\<rparr>]\<rparr>
      in if tool_name = ''bash'' \<and> (is_build cmd \<or> is_test cmd)
         then st1\<lparr>tool_start_map :=
                     (tool_start_map st1)(tool_call_id \<mapsto> info\<lparr>st_dev_loop := Some (dl_next st)\<rparr>),
                   dl_store := (dl_store st)(dl_next st :=
                     \<lparr>dl_type = (if is_test cmd then Test else Build),
                      dl_command = take 200 cmd, dl_description = desc, dl_startTime = ts,
                      dl_endTime = None, dl_success = None, dl_result_preview = None,
                      dl_test_failed = None, dl_test_passed = None\<rparr>),
                   dl_next := dl_next st + 1\<rparr>
         else st1)"
| "handle_event st (Tool_execution_complete tool_call_id success result_content ts) =
     (let start = tool_start_map st tool_call_id;
          st1 = st\<lparr>tool_completes := tool_completes st @
                     [\<lparr>tc_toolCallId = tool_call_id,
                       tc_name = (case start of None \<Rightarrow> [] | Some i \<Rightarrow> st_name i),
                       tc_success = success,
                       tc_startTime = (case start of None \<Rightarrow> [] | Some i \<Rightarrow> st_timestamp i),
                       tc_endTime = ts\<rparr>]\<rparr>
      in case start of
           None \<Rightarrow> st1
         | Some i \<Rightarrow>
             (case st_dev_loop i of
                None \<Rightarrow> st1
              | Some a \<Rightarrow>
                  st1\<lparr>dl_store := (dl_store st)(a := finalize (dl_store st a) success result_content ts),
                      dev_loop := dev_loop st @ [a]\<rparr>))"
| "handle_event st (Subagent_started tcid name display ts) =
     st\<lparr>subagents := subagents st @
          [\<lparr>sa_toolCallId = tcid, sa_name = name, sa_displayName = display,
            sa_startTime = ts, sa_endTime = None\<rparr>]\<rparr>"
| "handle_event st (Subagent_completed tcid ts) =
     st\<lparr>subagents := complete_subagent tcid ts (subagents st)\<rparr>"
| "handle_event st (Session_compaction_start ts) =
     st\<lparr>compactions := compactions st @
          [\<lparr>cp_startTime = ts, cp_endTime = None, cp_preTokens = None, cp_success = None\<rparr>]\<rparr>"
| "handle_event st (Session_compaction_complete pre success ts) =
     (if compactions st \<noteq> [] then
        (let last_c = last (compactions st)
         in if cp_endTime last_c = None
            then st\<lparr>compactions := butlast (compactions st) @
                       [last_c\<lparr>cp_endTime := Some ts, cp_preTokens := pre,
                               cp_success := Some success\<rparr>]\<rparr>
            else st)
      else st)"
| "handle_event st (Session_error etype msg ts) =
     st\<lparr>errors := errors st @
          [\<lparr>err_type = etype, err_message = take 300 msg, err_timestamp = ts\<rparr>]\<rparr>"
| "handle_event st (Session_mode_changed ts) = st\<lparr>mode_changes := mode_changes st @ [ts]\<rparr>"
| "handle_event st Session_plan_changed = st\<lparr>plan_changes := plan_changes st + 1\<rparr>"
| "handle_event st Session_task_complete = st\<lparr>task_completes := task_completes st + 1\<rparr>"
| "handle_event st (Other_event etype) = st"

text \<open>An address of the store that no start event has filled yet holds this.\<close>

definition no_action :: dev_loop_action where
  "no_action =
     \<lparr>dl_type = Build, dl_command = [], dl_description = [], dl_startTime = [],
      dl_endTime = None, dl_success = None, dl_result_preview = None,
      dl_test_failed = None, dl_test_passed = None\<rparr>"

definition initial :: parser where
  "initial =
     \<lparr>session_info = None, user_messages = [], turns = [], tool_starts = [],
      tool_completes = [], subagents = [], compactions = [], errors = [],
      mode_changes = [], plan_changes = 0, task_completes = 0, dev_loop = [],
      current_turn = None, tool_start_map = Map.empty, dl_store = (\<lambda>_. no_action),
      dl_next = 0\<rparr>"

definition run :: "event list \<Rightarrow> parser" where
  "run evs = foldl handle_event initial evs"

text \<open>The dictionary \<open>parse_events\<close> returns: the list of addresses read through the store.\<close>

definition returned :: "parser \<Rightarrow> dev_loop_action events" where
  "returned st =
     \<lparr>session_info = session_info st, user_messages = user_messages st, turns = turns st,
      tool_starts = tool_starts st, tool_completes = tool_completes st,
      subagents = subagents st, compactions = compactions st, errors = errors st,
      mode_changes = mode_changes st, plan_changes = plan_changes st,
      task_completes = task_completes st, dev_loop = map (dl_store st) (dev_loop st)\<rparr>"

definition parse_events :: "event list \<Rightarrow> dev_loop_action events" where
  "parse_events evs = returned (run evs)"

section \<open>Summary\<close>

record llm_call =
  model :: string
  initiator :: string
  api_call_id :: string
  input_tokens :: int
  output_tokens :: int
  cache_read_tokens :: int
  cache_write_tokens :: int
  cost :: rat
  duration_ms :: int

definition total_input :: "llm_call list \<Rightarrow> int" where
  "total_input llm_calls = sum_list (map input_tokens llm_calls)"

definition total_cache_read :: "llm_call list \<Rightarrow> int" where
  "total_cache_read llm_calls = sum_list (map cache_read_tokens llm_calls)"

text \<open>\<^verbatim>\<open>(total_cache_read / total_input * 100) if total_input > 0 else 0\<close>; the division
  is Python's, which raises on a zero divisor.\<close>

definition cache_hit_rate :: "llm_call list \<Rightarrow> py_error + rat" where
  "cache_hit_rate llm_calls =
     (if total_input llm_calls > 0
      then (case truediv (of_int (total_cache_read llm_calls)) (of_int (total_input llm_calls)) of
              Inl e \<Rightarrow> Inl e
            | Inr q \<Rightarrow> Inr (q * 100))
      else Inr 0)"

text \<open>\<^verbatim>\<open>d.get("success", True)\<close>\<close>

definition get_success :: "dev_loop_action \<Rightarrow> bool" where
  "get_success d = (case dl_success d of None \<Rightarrow> True | Some b \<Rightarrow> b)"

definition builds_of :: "dev_loop_action list \<Rightarrow> dev_loop_action list" where
  "builds_of dev_loop_list = filter (\<lambda>d. dl_type d = Build) dev_loop_list"

record fix_cycle =
  failures :: nat
  first_failure :: timestamp
  resolution :: "timestamp option"
  command_preview :: string

text \<open>The dictionary appended for a run \<open>current_cycle\<close> of at least two failures.\<close>

definition cycle_entry :: "dev_loop_action list \<Rightarrow> timestamp option \<Rightarrow> fix_cycle" where
  "cycle_entry current_cycle res =
     \<lparr>failures = length current_cycle,
      first_failure = dl_startTime (current_cycle ! 0),
      resolution = res,
      command_preview = take 100 (dl_command (current_cycle ! 0))\<rparr>"

text \<open>The loop over \<^verbatim>\<open>builds\<close> with its two variables, and the test after the loop.\<close>

fun fix_cycle_loop ::
  "dev_loop_action list \<Rightarrow> dev_loop_action list \<Rightarrow> fix_cycle list \<Rightarrow> fix_cycle list" where
  "fix_cycle_loop [] current_cycle fix_cycles =
     (if length current_cycle \<ge> 2 then fix_cycles @ [cycle_entry current_cycle None]
      else fix_cycles)"
| "fix_cycle_loop (b # bs) current_cycle fix_cycles =
     (if \<not> get_success b then fix_cycle_loop bs (current_cycle @ [b]) fix_cycles
      else fix_cycle_loop bs []
             (if length current_cycle \<ge> 2
              then fix_cycles @ [cycle_entry current_cycle (Some (dl_startTime b))]
              else fix_cycles))"

definition detect_fix_cycles :: "dev_loop_action list \<Rightarrow> fix_cycle list" where
  "detect_fix_cycles builds = (if builds \<noteq> [] then fix_cycle_loop builds [] [] else [])"

definition edit_timestamps :: "tool_complete list \<Rightarrow> timestamp list" where
  "edit_timestamps tcs =
     map tc_endTime (filter (\<lambda>tc. tc_name tc = ''edit'' \<or> tc_name tc = ''create'') tcs)"

text \<open>\<^verbatim>\<open>prev_build.get("endTime", prev_build["startTime"])\<close>\<close>

definition prev_end :: "dev_loop_action \<Rightarrow> timestamp" where
  "prev_end prev_build =
     (case dl_endTime prev_build of None \<Rightarrow> dl_startTime prev_build | Some e \<Rightarrow> e)"

definition edits_between :: "timestamp list \<Rightarrow> dev_loop_action \<Rightarrow> dev_loop_action \<Rightarrow> bool" where
  "edits_between ets prev_build b =
     list_ex (\<lambda>et. prev_end prev_build < et \<and> et < dl_startTime b) ets"

fun redundant_loop ::
  "timestamp list \<Rightarrow> dev_loop_action option \<Rightarrow> dev_loop_action list \<Rightarrow> nat \<Rightarrow> nat" where
  "redundant_loop ets prev_build [] redundant_builds = redundant_builds"
| "redundant_loop ets prev_build (b # bs) redundant_builds =
     redundant_loop ets (Some b) bs
       (case prev_build of
          None \<Rightarrow> redundant_builds
        | Some p \<Rightarrow>
            if get_success b
            then (if take 80 (dl_command p) = take 80 (dl_command b)
                  then (if \<not> edits_between ets p b then redundant_builds + 1
                        else redundant_builds)
                  else redundant_builds)
            else redundant_builds)"

definition count_redundant_builds :: "dev_loop_action list \<Rightarrow> tool_complete list \<Rightarrow> nat" where
  "count_redundant_builds builds tcs =
     (if builds \<noteq> [] \<and> length builds \<ge> 2
      then redundant_loop (edit_timestamps tcs) None builds 0
      else 0)"

text \<open>The entries of the report that the development reaches.\<close>

record report =
  turns_total :: int
  user_initiated :: int
  agent_initiated :: int
  cache_hit_rate_pct :: rat
  fix_cycles :: "fix_cycle list"
  redundant_builds :: nat

definition build_summary :: "dev_loop_action events \<Rightarrow> llm_call list \<Rightarrow> py_error + report" where
  "build_summary evts llm_calls =
     (case cache_hit_rate llm_calls of
        Inl e \<Rightarrow> Inl e
      | Inr rate \<Rightarrow>
          (let user_turns = int (length (user_messages evts));
               total_turns = int (length (turns evts));
               agent_turns = total_turns - user_turns;
               builds = builds_of (dev_loop evts)
           in Inr \<lparr>turns_total = total_turns,
                   user_initiated = user_turns,
                   agent_initiated = agent_turns,
                   cache_hit_rate_pct = py_round rate 1,
                   fix_cycles = detect_fix_cycles builds,
                   redundant_builds = count_redundant_builds builds (tool_completes evts)\<rparr>))"

section \<open>Telemetry block extractor\<close>

definition MARKER :: string where
  "MARKER = ''[Telemetry] cli.telemetry:''"

text \<open>\<^verbatim>\<open>\d{n}\<close> and \<^verbatim>\<open>[\d:.]+\<close> at the head of the text; each returns the rest.\<close>

definition digits_n :: "nat \<Rightarrow> string \<Rightarrow> string option" where
  "digits_n n s =
     (if length (take n s) = n \<and> list_all is_digit (take n s) then Some (drop n s) else None)"

definition is_clock_char :: "char \<Rightarrow> bool" where
  "is_clock_char c = (is_digit c \<or> c = CHR '':'' \<or> c = CHR ''.'')"

definition clock1 :: "string \<Rightarrow> string option" where
  "clock1 s = (if takeWhile is_clock_char s = [] then None else Some (dropWhile is_clock_char s))"

text \<open>\<^verbatim>\<open>^\d{4}-\d{2}-\d{2}T[\d:.]+Z\s*\<close> at the start of a line: what follows the match\<close>

definition timestamp_prefix :: "string \<Rightarrow> string option" where
  "timestamp_prefix s =
     (case digits_n 4 s of None \<Rightarrow> None | Some r1 \<Rightarrow>
      (case lit ''-'' r1 of None \<Rightarrow> None | Some r2 \<Rightarrow>
       (case digits_n 2 r2 of None \<Rightarrow> None | Some r3 \<Rightarrow>
        (case lit ''-'' r3 of None \<Rightarrow> None | Some r4 \<Rightarrow>
         (case digits_n 2 r4 of None \<Rightarrow> None | Some r5 \<Rightarrow>
          (case lit ''T'' r5 of None \<Rightarrow> None | Some r6 \<Rightarrow>
           (case clock1 r6 of None \<Rightarrow> None | Some r7 \<Rightarrow>
            (case lit ''Z'' r7 of None \<Rightarrow> None | Some r8 \<Rightarrow> Some (spaces r8)))))))))"

text \<open>\<^verbatim>\<open>re.sub(r'^\d{4}-\d{2}-\d{2}T[\d:.]+Z\s*', '', line)\<close>\<close>

definition strip_timestamp :: "string \<Rightarrow> string" where
  "strip_timestamp line = (case timestamp_prefix line of None \<Rightarrow> line | Some r \<Rightarrow> r)"

text \<open>\<^verbatim>\<open>stripped.strip().startswith("{")\<close>\<close>

definition is_block_start :: "string \<Rightarrow> bool" where
  "is_block_start stripped = startswith (spaces stripped) ''{''"

text \<open>
  The inner loop of \<open>parse_process_log\<close>, entered on the line after a marker line. Its
  first argument is \<^verbatim>\<open>lines[i:]\<close>; it returns \<^verbatim>\<open>json_lines\<close> and \<^verbatim>\<open>lines[i:]\<close> as they
  are when the loop is left, the line of a \<^verbatim>\<open>break\<close> still at the head. The branches
  are the source's, the \<^verbatim>\<open>elif started\<close> after \<^verbatim>\<open>if started\<close> included.
\<close>

fun collect_block ::
  "string list \<Rightarrow> string list \<Rightarrow> int \<Rightarrow> bool \<Rightarrow> string list \<times> string list" where
  "collect_block [] json_lines brace_count started = (json_lines, [])"
| "collect_block (line # rest) json_lines brace_count started =
     (let stripped = strip_timestamp line;
          started1 = (if \<not> started \<and> is_block_start stripped then True else started)
      in if started1 then
           (let json_lines1 = json_lines @ [stripped];
                brace_count1 = brace_count + (int (count_list stripped CHR ''{'')
                                              - int (count_list stripped CHR ''}''))
            in if brace_count1 \<le> 0 \<and> started1 then (json_lines1, line # rest)
               else collect_block rest json_lines1 brace_count1 started1)
         else if started1 then (json_lines, line # rest)
         else collect_block rest json_lines brace_count started1)"

lemma collect_block_length:
  "collect_block ls json_lines brace_count started = (out, rest) \<Longrightarrow> length rest \<le> length ls"
proof (induction ls arbitrary: json_lines brace_count started)
  case Nil
  then show ?case by simp
next
  case (Cons l ls)
  then show ?case
    by (fastforce simp add: Let_def split: if_splits)
qed

text \<open>
  The outer loop: the first argument is \<^verbatim>\<open>lines[i:]\<close>, the result the non-empty
  \<^verbatim>\<open>json_lines\<close> in the order found, each the candidate text of one block before it is
  given to \<^verbatim>\<open>json.loads\<close>. After the inner loop \<^verbatim>\<open>i += 1\<close> steps over the line the
  loop stopped at.
\<close>

function find_blocks :: "string list \<Rightarrow> string list list" where
  "find_blocks [] = []"
| "find_blocks (line # rest) =
     (if contains line MARKER
      then (case collect_block rest [] 0 False of
              (json_lines, rest1) \<Rightarrow>
                (if json_lines \<noteq> [] then [json_lines] else []) @ find_blocks (tl rest1))
      else find_blocks rest)"
  by pat_completeness auto
termination
proof (relation "measure length", goal_cases)
  case 1
  show ?case by simp
next
  case (2 line rest json_lines rest1)
  then have "collect_block rest [] 0 False = (json_lines, rest1)" by simp
  then have "length rest1 \<le> length rest" by (rule collect_block_length)
  then show ?case by simp
next
  case (3 line rest)
  show ?case by simp
qed

text \<open>
  \<^verbatim>\<open>json.loads\<close> and the test of the \<^verbatim>\<open>kind\<close> key are the argument \<open>decode\<close>: it gives
  the block when the text is JSON of kind \<^verbatim>\<open>assistant_usage\<close>.
\<close>

definition join_lines :: "string list \<Rightarrow> string" where
  "join_lines ls = (case ls of [] \<Rightarrow> [] | l # r \<Rightarrow> foldl (\<lambda>acc x. acc @ CHR 0x0A # x) l r)"

definition telemetry_blocks :: "(string \<Rightarrow> 'b option) \<Rightarrow> string list \<Rightarrow> 'b list" where
  "telemetry_blocks decode lines = List.map_filter (\<lambda>jl. decode (join_lines jl)) (find_blocks lines)"

section \<open>Vocabulary of the properties\<close>

fun is_user_message :: "event \<Rightarrow> bool" where
  "is_user_message (User_message content ts) = True"
| "is_user_message e = False"

fun is_turn_start :: "event \<Rightarrow> bool" where
  "is_turn_start (Assistant_turn_start tid ts) = True"
| "is_turn_start e = False"

fun is_turn_end :: "event \<Rightarrow> bool" where
  "is_turn_end (Assistant_turn_end ts) = True"
| "is_turn_end e = False"

text \<open>
  A stream in which every turn start is followed by a turn end before the next turn start
  and before the end of the stream. The flag says whether a turn is open where the
  stream begins.
\<close>

fun paired :: "bool \<Rightarrow> event list \<Rightarrow> bool" where
  "paired is_open [] = (\<not> is_open)"
| "paired is_open (e # es) =
     (if is_turn_start e then \<not> is_open \<and> paired True es
      else if is_turn_end e then paired False es
      else paired is_open es)"

section \<open>Sample data\<close>

definition call :: "int \<Rightarrow> int \<Rightarrow> llm_call" where
  "call i c =
     \<lparr>model = ''gpt-5.2'', initiator = ''agent'', api_call_id = [], input_tokens = i,
      output_tokens = 0, cache_read_tokens = c, cache_write_tokens = 0, cost = 0,
      duration_ms = 0\<rparr>"

definition build_action :: "string \<Rightarrow> timestamp \<Rightarrow> timestamp \<Rightarrow> bool \<Rightarrow> dev_loop_action" where
  "build_action cmd t_start t_end ok =
     \<lparr>dl_type = Build, dl_command = cmd, dl_description = [], dl_startTime = t_start,
      dl_endTime = Some t_end, dl_success = Some ok, dl_result_preview = Some [],
      dl_test_failed = None, dl_test_passed = None\<rparr>"

definition edit_complete :: "string \<Rightarrow> timestamp \<Rightarrow> tool_complete" where
  "edit_complete name t_end =
     \<lparr>tc_toolCallId = [], tc_name = name, tc_success = True, tc_startTime = t_end,
      tc_endTime = t_end\<rparr>"

section \<open>Rounding\<close>

lemma round_half_even_of_int: "round_half_even (of_int k) = k"
  by (simp add: round_half_even_def)

lemma round_half_even_bounds:
  "\<lfloor>x\<rfloor> \<le> round_half_even x" "round_half_even x \<le> \<lfloor>x\<rfloor> + 1"
  by (simp_all add: round_half_even_def Let_def)

lemma round_half_even_mono:
  assumes "x \<le> y"
  shows "round_half_even x \<le> round_half_even y"
proof (cases "\<lfloor>x\<rfloor> = \<lfloor>y\<rfloor>")
  case True
  with assms have "x - of_int \<lfloor>x\<rfloor> \<le> y - of_int \<lfloor>y\<rfloor>" by simp
  with True show ?thesis
    by (auto simp add: round_half_even_def Let_def)
next
  case False
  with assms have "\<lfloor>x\<rfloor> < \<lfloor>y\<rfloor>"
    using floor_mono [of x y] by linarith
  then have "round_half_even x \<le> \<lfloor>y\<rfloor>"
    using round_half_even_bounds(2) [of x] by linarith
  then show ?thesis
    using round_half_even_bounds(1) [of y] by linarith
qed

lemma py_round_mono: "x \<le> y \<Longrightarrow> py_round x n \<le> py_round y n"
  by (simp add: py_round_def divide_right_mono round_half_even_mono)

lemma py_round_zero: "py_round 0 n = 0"
  using round_half_even_of_int [of 0] by (simp add: py_round_def)

lemma py_round_nonneg: "0 \<le> x \<Longrightarrow> 0 \<le> py_round x n"
  using py_round_mono [of 0 x n] by (simp add: py_round_zero)

section \<open>Cost model: properties\<close>

lemma lookup_default_pred:
  assumes "list_all (\<lambda>kv. P (snd kv)) xs" and "P d"
  shows "P (case map_of xs k of None \<Rightarrow> d | Some p \<Rightarrow> p)"
proof (cases "map_of xs k")
  case None
  with assms(2) show ?thesis by simp
next
  case (Some p)
  then have "(k, p) \<in> set xs" by (rule map_of_SomeD)
  with assms(1) have "P p" by (auto simp add: list_all_iff)
  with Some show ?thesis by simp
qed

lemma pricing_for_rates_ok: "rates_ok (pricing_for m)"
  unfolding pricing_for_def
  by (rule lookup_default_pred) (simp_all add: MODEL_PRICING_def DEFAULT_PRICING_def rates_ok_def)

text \<open>The sum inside \<open>compute_cost\<close>, before rounding.\<close>

lemma compute_cost_unfold:
  "compute_cost i out c m =
     py_round (of_int (max 0 (i - c)) * input_rate (pricing_for m) / 1000000
               + of_int c * cached_input_rate (pricing_for m) / 1000000
               + of_int out * output_rate (pricing_for m) / 1000000) 6"
  by (simp add: compute_cost_def Let_def)

lemma raw_cost_mono:
  fixes a b c a' b' c' ra rb rc :: rat
  assumes "a \<le> a'" "b \<le> b'" "c \<le> c'" "0 \<le> ra" "0 \<le> rb" "0 \<le> rc"
  shows "a * ra / 1000000 + b * rb / 1000000 + c * rc / 1000000
         \<le> a' * ra / 1000000 + b' * rb / 1000000 + c' * rc / 1000000"
proof -
  have "a * ra \<le> a' * ra" "b * rb \<le> b' * rb" "c * rc \<le> c' * rc"
    using assms by (simp_all add: mult_right_mono)
  then show ?thesis
    by (simp add: add_mono divide_right_mono)
qed

lemma compute_cost_mono:
  assumes "max 0 (i - c) \<le> max 0 (i' - c')" "c \<le> c'" "out \<le> out'"
  shows "compute_cost i out c m \<le> compute_cost i' out' c' m"
proof -
  have r: "0 \<le> input_rate (pricing_for m)" "0 \<le> cached_input_rate (pricing_for m)"
    "0 \<le> output_rate (pricing_for m)"
    using pricing_for_rates_ok [of m] by (simp_all add: rates_ok_def)
  have "(of_int (max 0 (i - c)) :: rat) \<le> of_int (max 0 (i' - c'))"
    "(of_int c :: rat) \<le> of_int c'" "(of_int out :: rat) \<le> of_int out'"
    using assms by (simp_all only: of_int_le_iff)
  then show ?thesis
    unfolding compute_cost_unfold
    by (intro py_round_mono raw_cost_mono r)
qed

lemma compute_cost_zero: "compute_cost 0 0 0 m = 0"
  by (simp add: compute_cost_unfold py_round_zero)

text \<open>
  Claim C1, as amended. For every model identifier and all non-negative token counts the
  cost is non-negative, and it does not decrease when the input count grows or when the
  output count grows, the other two counts held fixed. In the cache-read count it is
  non-decreasing only from the input count upwards (\<open>i \<le> c \<le> c'\<close>, where the fresh input is
  already 0); below the input count a cache-read token replaces a fresh input token at a
  lower rate.
\<close>

theorem compute_cost_nonneg_mono:
  assumes "0 \<le> i" "0 \<le> out" "0 \<le> c" "i \<le> i'" "out \<le> out'" "c \<le> c'"
  shows "0 \<le> compute_cost i out c m
       \<and> compute_cost i out c m \<le> compute_cost i' out c m
       \<and> compute_cost i out c m \<le> compute_cost i out' c m
       \<and> (i \<le> c \<longrightarrow> compute_cost i out c m \<le> compute_cost i out c' m)"
proof -
  have "compute_cost 0 0 0 m \<le> compute_cost i out c m"
    using assms(1-3) by (intro compute_cost_mono) simp_all
  then have nonneg: "0 \<le> compute_cost i out c m"
    by (simp add: compute_cost_zero)
  have inp: "compute_cost i out c m \<le> compute_cost i' out c m"
    using assms(4) by (intro compute_cost_mono) simp_all
  have outp: "compute_cost i out c m \<le> compute_cost i out' c m"
    using assms(5) by (intro compute_cost_mono) simp_all
  have cache: "compute_cost i out c m \<le> compute_cost i out c' m" if "i \<le> c"
    using assms(6) that by (intro compute_cost_mono) simp_all
  from nonneg inp outp cache show ?thesis by blast
qed

theorem compute_cost_nonneg_mono_witness:
  "0 \<le> compute_cost 1000 100 1000 ''claude-sonnet-4.5''
   \<and> compute_cost 1000 100 1000 ''claude-sonnet-4.5'' \<le> compute_cost 2000 100 1000 ''claude-sonnet-4.5''
   \<and> compute_cost 1000 100 1000 ''claude-sonnet-4.5'' \<le> compute_cost 1000 200 1000 ''claude-sonnet-4.5''
   \<and> compute_cost 1000 100 1000 ''claude-sonnet-4.5'' \<le> compute_cost 1000 100 2000 ''claude-sonnet-4.5''"
  using compute_cost_nonneg_mono [of 1000 100 1000 2000 200 2000 "''claude-sonnet-4.5''"]
  by simp

text \<open>
  Claim C1 as stated fails in the cache-read count: with 1000 input tokens at the
  \<^verbatim>\<open>claude-sonnet-4.5\<close> rates, raising the cache-read count from 0 to 1000 lowers the cost
  from 0.003 to 0.0003.
\<close>

theorem compute_cost_cache_read_counterexample:
  "compute_cost 1000 0 0 ''claude-sonnet-4.5'' = 3 / 1000
   \<and> compute_cost 1000 0 1000 ''claude-sonnet-4.5'' = 3 / 10000
   \<and> compute_cost 1000 0 1000 ''claude-sonnet-4.5'' < compute_cost 1000 0 0 ''claude-sonnet-4.5''"
  by (simp add: compute_cost_def pricing_for_def MODEL_PRICING_def py_round_def
      round_half_even_def Let_def)

text \<open>Below the input count the cost does not increase with the cache-read count.\<close>

lemma compute_cost_cache_read_antimono:
  assumes "c \<le> c'" "c' \<le> i"
  shows "compute_cost i out c' m \<le> compute_cost i out c m"
proof -
  let ?p = "pricing_for m"
  have r: "cached_input_rate ?p \<le> input_rate ?p"
    using pricing_for_rates_ok [of m] by (simp add: rates_ok_def)
  have "(of_int (c' - c) :: rat) * cached_input_rate ?p \<le> of_int (c' - c) * input_rate ?p"
    using assms(1) r by (intro mult_left_mono) simp_all
  then have "of_int (i - c') * input_rate ?p + of_int c' * cached_input_rate ?p
             \<le> of_int (i - c) * input_rate ?p + of_int c * cached_input_rate ?p"
    by (simp add: algebra_simps)
  then have "of_int (i - c') * input_rate ?p / 1000000 + of_int c' * cached_input_rate ?p / 1000000
               + of_int out * output_rate ?p / 1000000
             \<le> of_int (i - c) * input_rate ?p / 1000000 + of_int c * cached_input_rate ?p / 1000000
               + of_int out * output_rate ?p / 1000000"
    by (simp add: add_divide_distrib [symmetric] divide_right_mono del: of_int_diff)
  moreover have "max 0 (i - c') = i - c'" "max 0 (i - c) = i - c"
    using assms by simp_all
  ultimately show ?thesis
    unfolding compute_cost_unfold by (simp only: py_round_mono)
qed



section \<open>Cache hit rate\<close>

lemma cache_hit_rate_eq:
  "cache_hit_rate llm_calls =
     Inr (if total_input llm_calls > 0
          then of_int (total_cache_read llm_calls) / of_int (total_input llm_calls) * 100
          else 0)"
  by (simp add: cache_hit_rate_def truediv_def)




text \<open>The guard is \<^verbatim>\<open>total_input > 0\<close>: a negative total also gives 0.\<close>

lemma cache_hit_rate_nonpositive:
  "total_input llm_calls \<le> 0 \<Longrightarrow> cache_hit_rate llm_calls = Inr 0"
  by (simp add: cache_hit_rate_eq)

section \<open>Turns and user messages\<close>

lemma handle_event_user_messages:
  "length (user_messages (handle_event st e)) =
     length (user_messages st) + (if is_user_message e then 1 else 0)"
  by (cases e) (simp_all add: Let_def split: option.splits)

lemma foldl_user_messages:
  "length (user_messages (foldl handle_event st evs)) =
     length (user_messages st) + length (filter is_user_message evs)"
  by (induction evs arbitrary: st) (simp_all add: handle_event_user_messages)

lemma parse_events_user_messages:
  "length (user_messages (parse_events evs)) = length (filter is_user_message evs)"
  by (simp add: parse_events_def returned_def run_def foldl_user_messages initial_def)

lemma build_summary_turns:
  "\<exists>r. build_summary evts llm_calls = Inr r
       \<and> turns_total r = int (length (turns evts))
       \<and> user_initiated r = int (length (user_messages evts))
       \<and> agent_initiated r = int (length (turns evts)) - int (length (user_messages evts))"
  by (simp add: build_summary_def cache_hit_rate_eq Let_def)

lemma handle_event_turn_start:
  "is_turn_start e \<Longrightarrow>
     turns (handle_event st e) = turns st \<and> current_turn (handle_event st e) \<noteq> None"
  by (cases e) simp_all

lemma handle_event_turn_end:
  "is_turn_end e \<Longrightarrow>
     current_turn (handle_event st e) = None \<and>
     length (turns (handle_event st e)) =
       length (turns st) + (if current_turn st = None then 0 else 1)"
  by (cases e) (auto split: option.splits)

lemma handle_event_turn_other:
  "\<not> is_turn_start e \<Longrightarrow> \<not> is_turn_end e \<Longrightarrow>
     turns (handle_event st e) = turns st \<and>
     (current_turn (handle_event st e) = None) = (current_turn st = None)"
  by (cases e) (auto simp add: Let_def split: option.splits)

lemma foldl_turns_paired:
  "paired (current_turn st \<noteq> None) evs \<Longrightarrow>
     length (turns (foldl handle_event st evs)) =
       length (turns st) + (if current_turn st \<noteq> None then 1 else 0)
       + length (filter is_turn_start evs)"
proof (induction evs arbitrary: st)
  case Nil
  then show ?case by simp
next
  case (Cons e es)
  let ?st = "handle_event st e"
  consider (start) "is_turn_start e" | (stop) "\<not> is_turn_start e" "is_turn_end e"
    | (other) "\<not> is_turn_start e" "\<not> is_turn_end e" by blast
  then show ?case
  proof cases
    case start
    with Cons.prems have closed: "current_turn st = None" and rest: "paired True es" by simp_all
    from start have st: "turns ?st = turns st" "current_turn ?st \<noteq> None"
      using handle_event_turn_start [of e st] by simp_all
    with rest have "paired (current_turn ?st \<noteq> None) es" by simp
    from Cons.IH [OF this] st closed start show ?thesis by simp
  next
    case stop
    with Cons.prems have rest: "paired False es" by simp
    from stop have st: "current_turn ?st = None"
      "length (turns ?st) = length (turns st) + (if current_turn st = None then 0 else 1)"
      using handle_event_turn_end [of e st] by simp_all
    with rest have "paired (current_turn ?st \<noteq> None) es" by simp
    from Cons.IH [OF this] st stop show ?thesis by simp
  next
    case other
    with Cons.prems have rest: "paired (current_turn st \<noteq> None) es" by simp
    from other have st: "turns ?st = turns st"
      "(current_turn ?st = None) = (current_turn st = None)"
      using handle_event_turn_other [of e st] by simp_all
    with rest have "paired (current_turn ?st \<noteq> None) es" by simp
    from Cons.IH [OF this] st other show ?thesis by simp
  qed
qed

lemma parse_events_turns_paired:
  "paired False evs \<Longrightarrow> length (turns (parse_events evs)) = length (filter is_turn_start evs)"
  using foldl_turns_paired [of initial evs]
  by (simp add: parse_events_def returned_def run_def initial_def)

text \<open>
  Claim C5. In a stream where every turn start is followed by a turn end before the next
  turn start (and before the stream ends), \<^verbatim>\<open>turns.total\<close> is the number of turn
  starts, that is of start/end pairs, and \<^verbatim>\<open>agent_initiated\<close> is \<^verbatim>\<open>total\<close> minus
  \<^verbatim>\<open>user_initiated\<close>. In any state a turn start replaces the open turn by a fresh one and
  leaves the turn list alone, so an unterminated turn it replaces is never emitted; no
  event but a turn end changes the turn list; a turn end appends the open turn, closed at
  its time stamp, and does nothing when no turn is open.
\<close>

theorem turns_total_paired:
  "(paired False evs \<longrightarrow>
      (\<exists>r. build_summary (parse_events evs) llm_calls = Inr r
           \<and> turns_total r = int (length (filter is_turn_start evs))
           \<and> agent_initiated r = turns_total r - user_initiated r))
   \<and> turns (handle_event st (Assistant_turn_start tid ts)) = turns st
   \<and> current_turn (handle_event st (Assistant_turn_start tid ts)) =
       Some \<lparr>turnId = tid, turn_startTime = ts, turn_endTime = None, tool_calls = [],
             message_count = 0\<rparr>
   \<and> (\<not> is_turn_end e \<longrightarrow> turns (handle_event st e) = turns st)
   \<and> turns (handle_event st (Assistant_turn_end ts')) =
       (case current_turn st of
          None \<Rightarrow> turns st
        | Some t \<Rightarrow> turns st @ [t\<lparr>turn_endTime := Some ts'\<rparr>])"
proof -
  have a: "\<exists>r. build_summary (parse_events evs) llm_calls = Inr r
           \<and> turns_total r = int (length (filter is_turn_start evs))
           \<and> agent_initiated r = turns_total r - user_initiated r" if "paired False evs"
    using build_summary_turns [of "parse_events evs" llm_calls] parse_events_turns_paired [OF that]
    by auto
  have b: "turns (handle_event st e) = turns st" if "\<not> is_turn_end e"
    using that handle_event_turn_start [of e st] handle_event_turn_other [of e st] by blast
  have c: "turns (handle_event st (Assistant_turn_end ts')) =
       (case current_turn st of
          None \<Rightarrow> turns st
        | Some t \<Rightarrow> turns st @ [t\<lparr>turn_endTime := Some ts'\<rparr>])"
    by (simp split: option.splits)
  from a b c show ?thesis by simp
qed

theorem turns_total_paired_witness:
  "paired False [User_message ''hello'' ''T0'', Assistant_turn_start ''1'' ''T1'',
                 Assistant_message [''bash''], Assistant_turn_end ''T2'',
                 Assistant_turn_start ''2'' ''T3'', Assistant_turn_end ''T4'']
   \<and> (\<exists>r. build_summary
            (parse_events [User_message ''hello'' ''T0'', Assistant_turn_start ''1'' ''T1'',
                           Assistant_message [''bash''], Assistant_turn_end ''T2'',
                           Assistant_turn_start ''2'' ''T3'', Assistant_turn_end ''T4'']) [] = Inr r
          \<and> turns_total r = 2 \<and> user_initiated r = 1 \<and> agent_initiated r = 1)
   \<and> turns (handle_event (run [Assistant_turn_start ''a'' ''T1''])
               (Assistant_turn_start ''b'' ''T2'')) = []
   \<and> turns (handle_event (run [Assistant_turn_start ''a'' ''T1''])
               (User_message ''hello'' ''T2'')) = []"
  using turns_total_paired
    [where evs = "[User_message ''hello'' ''T0'', Assistant_turn_start ''1'' ''T1'',
                   Assistant_message [''bash''], Assistant_turn_end ''T2'',
                   Assistant_turn_start ''2'' ''T3'', Assistant_turn_end ''T4'']"
       and llm_calls = "[]" and st = "run [Assistant_turn_start ''a'' ''T1'']"
       and tid = "''b''" and ts = "''T2''" and e = "User_message ''hello'' ''T2''"]
  by (simp add: parse_events_def returned_def run_def initial_def build_summary_def
      cache_hit_rate_eq Let_def)

text \<open>
  Claim C10. \<^verbatim>\<open>turns.user_initiated\<close> is the number of user-message events, not a
  number of turns, and \<^verbatim>\<open>turns.agent_initiated\<close> is the number of completed turns minus
  that number, with no clamping: one user message and no turn give \<open>- 1\<close>.
\<close>

theorem agent_initiated_unclamped:
  "(\<exists>r. build_summary (parse_events evs) llm_calls = Inr r
        \<and> user_initiated r = int (length (filter is_user_message evs))
        \<and> agent_initiated r
            = int (length (turns (parse_events evs))) - int (length (filter is_user_message evs)))
   \<and> (\<exists>r. build_summary (parse_events [User_message ''hello'' ''2026-01-01T00:00:00Z'']) [] = Inr r
          \<and> turns_total r = 0 \<and> user_initiated r = 1 \<and> agent_initiated r = - 1)"
proof -
  have "turns (parse_events [User_message ''hello'' ''2026-01-01T00:00:00Z'']) = []"
    by (simp add: parse_events_def returned_def run_def initial_def)
  then show ?thesis
    using build_summary_turns [of "parse_events evs" llm_calls]
      build_summary_turns [of "parse_events [User_message ''hello'' ''2026-01-01T00:00:00Z'']" "[]"]
    by (auto simp add: parse_events_user_messages)
qed

theorem agent_initiated_unclamped_witness:
  "\<exists>r. build_summary
         (parse_events [User_message ''a'' ''T1'', Assistant_turn_start ''1'' ''T2'',
                        User_message ''b'' ''T3'', User_message ''c'' ''T4'',
                        Assistant_turn_end ''T5'']) [] = Inr r
       \<and> turns_total r = 1 \<and> user_initiated r = 3 \<and> agent_initiated r = - 2"
  using agent_initiated_unclamped [of "[User_message ''a'' ''T1'', Assistant_turn_start ''1'' ''T2'',
                        User_message ''b'' ''T3'', User_message ''c'' ''T4'',
                        Assistant_turn_end ''T5'']" "[]"]
  by (simp add: parse_events_def returned_def run_def initial_def build_summary_def cache_hit_rate_eq Let_def)

section \<open>Compactions\<close>

text \<open>
  Claim C4, as amended. A compaction-complete event changes nothing but the compaction
  list, and there nothing but the last entry, the most recently opened one: when that
  entry has no end time yet it receives the end time, the pre-compaction token count and
  the success flag; when the list is empty or its last entry is already terminated the
  event has no effect at all, also when an earlier entry is still unterminated.
\<close>

theorem compaction_complete_last_only:
  "handle_event st (Session_compaction_complete pre ok ts)
     = st\<lparr>compactions := compactions (handle_event st (Session_compaction_complete pre ok ts))\<rparr>
   \<and> length (compactions (handle_event st (Session_compaction_complete pre ok ts)))
       = length (compactions st)
   \<and> butlast (compactions (handle_event st (Session_compaction_complete pre ok ts)))
       = butlast (compactions st)
   \<and> (if compactions st \<noteq> [] \<and> cp_endTime (last (compactions st)) = None
       then last (compactions (handle_event st (Session_compaction_complete pre ok ts)))
              = (last (compactions st))\<lparr>cp_endTime := Some ts, cp_preTokens := pre,
                                          cp_success := Some ok\<rparr>
       else handle_event st (Session_compaction_complete pre ok ts) = st)"
  by (cases "compactions st" rule: rev_cases) (simp_all add: Let_def)

theorem compaction_complete_last_only_witness:
  "compactions (handle_event (run [Session_compaction_start ''T1''])
                  (Session_compaction_complete (Some 5) True ''T2''))
   = [\<lparr>cp_startTime = ''T1'', cp_endTime = Some ''T2'', cp_preTokens = Some 5,
       cp_success = Some True\<rparr>]"
  using compaction_complete_last_only
    [of "run [Session_compaction_start ''T1'']" "Some 5" True "''T2''"]
  by (simp add: run_def initial_def)

text \<open>
  Claim C4 as stated fails when compactions nest: after two starts and one completion
  the first entry is the most recently opened one that is still unterminated, and a
  second completion reaches no entry.
\<close>

theorem compaction_complete_counterexample:
  "compactions (parse_events
      [Session_compaction_start ''T1'', Session_compaction_start ''T2'',
       Session_compaction_complete (Some 5) True ''T3'',
       Session_compaction_complete (Some 7) False ''T4''])
   = [\<lparr>cp_startTime = ''T1'', cp_endTime = None, cp_preTokens = None, cp_success = None\<rparr>,
      \<lparr>cp_startTime = ''T2'', cp_endTime = Some ''T3'', cp_preTokens = Some 5,
       cp_success = Some True\<rparr>]"
  by (simp add: parse_events_def returned_def run_def initial_def Let_def)

section \<open>Dev-loop outcome\<close>

lemma space_not_digit: "is_space c \<Longrightarrow> \<not> is_digit c"
  by (auto simp add: is_space_def is_digit_def Let_def)

lemma takeWhile_digits_run:
  assumes "list_all is_digit ds" "ws \<noteq> []" "list_all is_space ws"
  shows "takeWhile is_digit (ds @ ws @ r) = ds" "dropWhile is_digit (ds @ ws @ r) = ws @ r"
proof -
  from assms(2,3) have "\<not> is_digit (hd (ws @ r))"
    by (cases ws) (simp_all add: space_not_digit)
  moreover from assms(2) have "ws @ r \<noteq> []" by simp
  ultimately have "takeWhile is_digit (ws @ r) = []" "dropWhile is_digit (ws @ r) = ws @ r"
    by (cases "ws @ r"; simp)+
  with assms(1) show "takeWhile is_digit (ds @ ws @ r) = ds"
    "dropWhile is_digit (ds @ ws @ r) = ws @ r"
    by (simp_all add: takeWhile_append2 dropWhile_append2 list_all_iff)
qed

lemma spaces_run:
  assumes "list_all is_space ws" "r = [] \<or> \<not> is_space (hd r)"
  shows "spaces (ws @ r) = r"
proof -
  from assms(2) have "dropWhile is_space r = r" by (cases r) auto
  with assms(1) show ?thesis
    by (simp add: spaces_def dropWhile_append2 list_all_iff)
qed

text \<open>The error-count pattern at the head of a text: digits, white space, the literal.\<close>

lemma error_match_here_shape:
  assumes "ds \<noteq> []" "list_all is_digit ds" "ws \<noteq> []" "list_all is_space ws"
  shows "error_match_here (ds @ ws @ ''Error(s)'' @ post) = Some (int_of_digits ds)"
proof -
  obtain w ws' where ws: "ws = w # ws'" using assms(3) by (cases ws) auto
  with assms(4) have w: "is_space w" "list_all is_space ws'" by simp_all
  have "\<not> is_space (hd (''Error(s)'' @ post))" by (simp add: is_space_def)
  then have "spaces (ws' @ ''Error(s)'' @ post) = ''Error(s)'' @ post"
    using spaces_run [OF w(2), of "''Error(s)'' @ post"] by simp
  then have "spaces1 (ws @ ''Error(s)'' @ post) = Some (''Error(s)'' @ post)"
    using w(1) by (simp add: spaces1_def ws)
  moreover have "lit ''Error(s)'' (''Error(s)'' @ post) = Some post"
    by (simp add: lit_def)
  ultimately show ?thesis
    using assms(1) takeWhile_digits_run [OF assms(2,3,4), of "''Error(s)'' @ post"]
    by (simp add: error_match_here_def digits1_def)
qed

text \<open>The search fails exactly when the pattern matches at no position.\<close>

lemma error_match_None_iff:
  "error_match s = None \<longleftrightarrow> (\<forall>k \<le> length s. error_match_here (drop k s) = None)"
proof (induction s)
  case Nil
  show ?case by simp
next
  case (Cons c s)
  have "(\<forall>k \<le> length (c # s). error_match_here (drop k (c # s)) = None)
        \<longleftrightarrow> error_match_here (c # s) = None \<and> (\<forall>k \<le> length s. error_match_here (drop k s) = None)"
    (is "?L \<longleftrightarrow> ?R")
  proof
    assume l: ?L
    then have "error_match_here (drop 0 (c # s)) = None" by blast
    moreover have "error_match_here (drop k s) = None" if "k \<le> length s" for k
      using l [rule_format, of "Suc k"] that by simp
    ultimately show ?R by simp
  next
    assume r: ?R
    show ?L
    proof (intro allI impI)
      fix k assume "k \<le> length (c # s)"
      with r show "error_match_here (drop k (c # s)) = None"
        by (cases k) simp_all
    qed
  qed
  with Cons.IH show ?case
    by (simp split: option.splits)
qed

lemma finalize_fields:
  "dl_success (finalize dl ok rc ts) = Some (ok \<and> \<not> build_failed rc \<and> \<not> test_failed rc)"
  "dl_type (finalize dl ok rc ts) = dl_type dl"
  "dl_endTime (finalize dl ok rc ts) = Some ts"
  "dl_test_failed (finalize dl ok rc ts) =
     (case test_passed_match rc of Some (f, p) \<Rightarrow> Some f | None \<Rightarrow> dl_test_failed dl)"
  "dl_test_passed (finalize dl ok rc ts) =
     (case test_passed_match rc of Some (f, p) \<Rightarrow> Some p | None \<Rightarrow> dl_test_passed dl)"
  by (simp_all add: finalize_def Let_def split: option.splits)

lemma handle_event_complete_pending:
  assumes "tool_start_map st tcid = Some info" "st_dev_loop info = Some a"
  shows "dev_loop (handle_event st (Tool_execution_complete tcid ok rc ts)) = dev_loop st @ [a]"
    and "dl_store (handle_event st (Tool_execution_complete tcid ok rc ts)) a
           = finalize (dl_store st a) ok rc ts"
  using assms by (simp_all add: Let_def)

text \<open>
  Claim C3, as amended. When a tool-execution-complete event finds a pending dev-loop
  action, of type build or test alike, the action is appended to the dev-loop list and its
  outcome is the reported success flag, turned into failure by the build check or by the
  test check. The build check: where the text has \<^verbatim>\<open><N> Error(s)\<close>, failure iff
  \<open>N > 0\<close>, whatever phrases the text has; where it has not, failure iff the lower-cased
  text contains one of the failure phrases. The test check, made for every action: where
  the text has the summary \<^verbatim>\<open>Passed! - Failed: <F>, Passed: <P>\<close>, failure iff \<open>F > 0\<close>,
  and the two counts are recorded; where it has not, failure iff the lower-cased text
  contains \<^verbatim>\<open>test run failed\<close> or \<^verbatim>\<open>tests failed\<close>.
\<close>

theorem tool_complete_outcome:
  assumes "tool_start_map st tcid = Some info" "st_dev_loop info = Some a"
  shows "dev_loop (handle_event st (Tool_execution_complete tcid ok rc ts)) = dev_loop st @ [a]
    \<and> dl_success (dl_store (handle_event st (Tool_execution_complete tcid ok rc ts)) a)
        = Some (ok
                \<and> \<not> (case error_match rc of
                         Some n \<Rightarrow> 0 < n
                       | None \<Rightarrow> any_in failure_phrases (lower rc))
                \<and> \<not> (case test_passed_match rc of
                         Some (f, p) \<Rightarrow> 0 < f
                       | None \<Rightarrow> any_in test_failure_phrases (lower rc)))
    \<and> dl_test_failed (dl_store (handle_event st (Tool_execution_complete tcid ok rc ts)) a)
        = (case test_passed_match rc of
             Some (f, p) \<Rightarrow> Some f
           | None \<Rightarrow> dl_test_failed (dl_store st a))
    \<and> dl_test_passed (dl_store (handle_event st (Tool_execution_complete tcid ok rc ts)) a)
        = (case test_passed_match rc of
             Some (f, p) \<Rightarrow> Some p
           | None \<Rightarrow> dl_test_passed (dl_store st a))
    \<and> dl_type (dl_store (handle_event st (Tool_execution_complete tcid ok rc ts)) a)
        = dl_type (dl_store st a)
    \<and> last (dev_loop (returned (handle_event st (Tool_execution_complete tcid ok rc ts))))
        = dl_store (handle_event st (Tool_execution_complete tcid ok rc ts)) a"
  using handle_event_complete_pending [OF assms, of ok rc ts]
  by (simp add: finalize_fields build_failed_def test_failed_def returned_def
      del: handle_event.simps)

text \<open>
  Claim C3 as stated restricts the pass/fail summary to test actions. The handler does
  not look at the type: a \<^verbatim>\<open>dotnet build\<close> command reported successful, whose output
  holds a summary with one failed test, ends as a failed build action with the test counts
  recorded.
\<close>

theorem tool_complete_build_counterexample:
  "map (\<lambda>d. (dl_type d, dl_success d, dl_test_failed d, dl_test_passed d))
     (dev_loop (parse_events
        [Tool_execution_start ''bash'' ''call-1'' ''dotnet build'' [] ''T0'',
         Tool_execution_complete ''call-1'' True ''Passed! - Failed: 1, Passed: 3'' ''T1'']))
   = [(Build, Some False, Some 1, Some 3)]"
  by code_simp

theorem tool_complete_outcome_witness:
  "dl_success
     (dl_store
        (handle_event (run [Tool_execution_start ''bash'' ''c1'' ''dotnet build'' [] ''T0''])
           (Tool_execution_complete ''c1'' True ''Build succeeded. 0 Error(s)'' ''T1'')) 0)
   = Some True
   \<and> any_in failure_phrases (lower ''Build succeeded. 0 Error(s)'')"
proof -
  have h1: "tool_start_map (run [Tool_execution_start ''bash'' ''c1'' ''dotnet build'' [] ''T0'']) ''c1''
            = Some \<lparr>st_name = ''bash'', st_timestamp = ''T0'', st_dev_loop = Some 0\<rparr>"
    by code_simp
  have h2: "st_dev_loop \<lparr>st_name = ''bash'', st_timestamp = ''T0'', st_dev_loop = Some 0\<rparr> = Some 0"
    by simp
  have v: "error_match ''Build succeeded. 0 Error(s)'' = Some 0"
    "test_passed_match ''Build succeeded. 0 Error(s)'' = None"
    "any_in test_failure_phrases (lower ''Build succeeded. 0 Error(s)'') = False"
    "any_in failure_phrases (lower ''Build succeeded. 0 Error(s)'') = True"
    by code_simp+
  show ?thesis
    unfolding tool_complete_outcome
      [OF h1 h2, of True "''Build succeeded. 0 Error(s)''" "''T1''", THEN conjunct2, THEN conjunct1]
    by (simp only: v) simp
qed

text \<open>
  Two completions for one tool call: the second changes the dictionary the first has
  already appended, and appends it again.
\<close>

lemma second_completion_rewrites_first:
  "map dl_success
     (dev_loop (parse_events
        [Tool_execution_start ''bash'' ''call-1'' ''make'' [] ''T0'',
         Tool_execution_complete ''call-1'' True ''ok'' ''T1'',
         Tool_execution_complete ''call-1'' False ''ok'' ''T2'']))
   = [Some False, Some False]"
  by code_simp

section \<open>Fix cycles\<close>

lemma fix_cycle_loop_acc:
  "fix_cycle_loop bs cc fcs = fcs @ fix_cycle_loop bs cc []"
proof (induction bs arbitrary: cc fcs)
  case Nil
  show ?case by simp
next
  case (Cons b bs)
  show ?case
  proof (cases "get_success b")
    case True
    show ?thesis
      using Cons.IH [of "[]" "fcs @ [cycle_entry cc (Some (dl_startTime b))]"]
        Cons.IH [of "[]" "[cycle_entry cc (Some (dl_startTime b))]"]
        Cons.IH [of "[]" fcs]
      by (simp add: True)
  next
    case False
    show ?thesis
      using Cons.IH [of "cc @ [b]" fcs] by (simp add: False)
  qed
qed

lemma fix_cycle_loop_failures:
  "list_all (\<lambda>b. \<not> get_success b) run_bs \<Longrightarrow>
     fix_cycle_loop (run_bs @ rest) cc fcs = fix_cycle_loop rest (cc @ run_bs) fcs"
  by (induction run_bs arbitrary: cc) simp_all

lemma cycle_entry_hd:
  "cc \<noteq> [] \<Longrightarrow>
     cycle_entry cc res =
       \<lparr>failures = length cc, first_failure = dl_startTime (hd cc), resolution = res,
        command_preview = take 100 (dl_command (hd cc))\<rparr>"
  by (simp add: cycle_entry_def hd_conv_nth)

text \<open>
  Claim C9. Every list of build actions is a sequence of runs of failing builds (a run
  may be empty), each but the last ended by a successful build. The first equation is
  for a run that a successful build \<open>s\<close> ends: a run of at least 2 failures gives one
  FixCycle, from the start time of its first failure to the start time of \<open>s\<close>, a shorter
  run gives nothing, and the detection goes on behind \<open>s\<close> with an empty run. The second is
  for the run the list ends with: at least 2 failures give one FixCycle with no resolution
  time, fewer give nothing.
\<close>

theorem fix_cycles_per_run:
  assumes "list_all (\<lambda>b. \<not> get_success b) fails" "get_success s"
  shows "detect_fix_cycles (fails @ s # rest) =
           (if 2 \<le> length fails
            then [\<lparr>failures = length fails, first_failure = dl_startTime (hd fails),
                   resolution = Some (dl_startTime s),
                   command_preview = take 100 (dl_command (hd fails))\<rparr>]
            else []) @ detect_fix_cycles rest
       \<and> detect_fix_cycles fails =
           (if 2 \<le> length fails
            then [\<lparr>failures = length fails, first_failure = dl_startTime (hd fails),
                   resolution = None,
                   command_preview = take 100 (dl_command (hd fails))\<rparr>]
            else [])"
proof -
  have rest: "detect_fix_cycles rest = fix_cycle_loop rest [] []"
    by (cases rest) (simp_all add: detect_fix_cycles_def)
  have "detect_fix_cycles (fails @ s # rest) = fix_cycle_loop (fails @ s # rest) [] []"
    by (simp add: detect_fix_cycles_def)
  also have "\<dots> = fix_cycle_loop (s # rest) fails []"
    using fix_cycle_loop_failures [OF assms(1), of "s # rest" "[]" "[]"] by simp
  also have "\<dots> = fix_cycle_loop rest []
                     (if 2 \<le> length fails then [cycle_entry fails (Some (dl_startTime s))] else [])"
    using assms(2) by simp
  also have "\<dots> = (if 2 \<le> length fails then [cycle_entry fails (Some (dl_startTime s))] else [])
                   @ detect_fix_cycles rest"
    using fix_cycle_loop_acc [of rest "[]"] rest by metis
  finally have a: "detect_fix_cycles (fails @ s # rest) =
      (if 2 \<le> length fails then [cycle_entry fails (Some (dl_startTime s))] else [])
      @ detect_fix_cycles rest" .
  have "detect_fix_cycles fails = fix_cycle_loop fails [] []"
    by (cases fails) (simp_all add: detect_fix_cycles_def)
  also have "\<dots> = fix_cycle_loop [] fails []"
    using fix_cycle_loop_failures [OF assms(1), of "[]" "[]" "[]"] by simp
  finally have b: "detect_fix_cycles fails =
      (if 2 \<le> length fails then [cycle_entry fails None] else [])" by simp
  have ne: "fails \<noteq> []" if "2 \<le> length fails" using that by auto
  from a b show ?thesis
    by (auto simp add: cycle_entry_hd ne)
qed

theorem fix_cycles_per_run_witness:
  "detect_fix_cycles
     [build_action ''dotnet build'' ''T1'' ''T2'' False, build_action ''dotnet build'' ''T3'' ''T4'' False,
      build_action ''dotnet build -c Release'' ''T5'' ''T6'' True,
      build_action ''dotnet build -c Release'' ''T7'' ''T8'' True]
   = [\<lparr>failures = 2, first_failure = ''T1'', resolution = Some ''T5'',
       command_preview = ''dotnet build''\<rparr>]
   \<and> detect_fix_cycles
       [build_action ''make'' ''T1'' ''T2'' False, build_action ''make'' ''T3'' ''T4'' False,
        build_action ''make'' ''T5'' ''T6'' False]
     = [\<lparr>failures = 3, first_failure = ''T1'', resolution = None, command_preview = ''make''\<rparr>]"
  using fix_cycles_per_run
    [of "[build_action ''dotnet build'' ''T1'' ''T2'' False,
          build_action ''dotnet build'' ''T3'' ''T4'' False]"
        "build_action ''dotnet build -c Release'' ''T5'' ''T6'' True"
        "[build_action ''dotnet build -c Release'' ''T7'' ''T8'' True]"]
    fix_cycles_per_run
    [of "[build_action ''make'' ''T1'' ''T2'' False, build_action ''make'' ''T3'' ''T4'' False,
          build_action ''make'' ''T5'' ''T6'' False]"
        "build_action ''make'' ''T7'' ''T8'' True" "[]"]
  by (simp add: build_action_def get_success_def detect_fix_cycles_def)

section \<open>Redundant builds\<close>

lemma redundant_loop_zip:
  "redundant_loop ets (Some p) bs n =
     n + length (filter (\<lambda>(prev, b). get_success b
                          \<and> take 80 (dl_command prev) = take 80 (dl_command b)
                          \<and> \<not> edits_between ets prev b) (zip (p # bs) bs))"
  by (induction bs arbitrary: p n) simp_all

lemma count_redundant_builds_zip:
  "count_redundant_builds builds tcs =
     length (filter (\<lambda>(prev, b). get_success b
                      \<and> take 80 (dl_command prev) = take 80 (dl_command b)
                      \<and> \<not> edits_between (edit_timestamps tcs) prev b) (zip builds (tl builds)))"
proof (cases builds)
  case Nil
  then show ?thesis by (simp add: count_redundant_builds_def)
next
  case (Cons b bs)
  then show ?thesis
    by (cases bs) (simp_all add: count_redundant_builds_def redundant_loop_zip)
qed

lemma zip_tl_nth:
  "zip xs (tl xs) = map (\<lambda>k. (xs ! (k - 1), xs ! k)) [1..<length xs]"
  by (rule nth_equalityI) (simp_all add: nth_tl)

lemma edits_between_iff:
  "edits_between (edit_timestamps tcs) prev b =
     (\<exists>tc \<in> set tcs. (tc_name tc = ''edit'' \<or> tc_name tc = ''create'')
        \<and> prev_end prev < tc_endTime tc \<and> tc_endTime tc < dl_startTime b)"
  by (auto simp add: edits_between_def edit_timestamps_def list_ex_iff)

lemma length_filter_upt_card:
  "length (filter P [1..<n]) = card {k. 0 < k \<and> k < n \<and> P k}"
proof -
  have "length (filter P [1..<n]) = card (set (filter P [1..<n]))"
    by (rule distinct_card [symmetric]) simp
  also have "set (filter P [1..<n]) = {k. 0 < k \<and> k < n \<and> P k}"
    by auto
  finally show ?thesis .
qed

text \<open>
  Claim C8. The number of redundant builds is the number of positions \<open>k\<close> of the build
  list, behind the first, whose build is successful, has the same first 80 characters of
  command text as the build just before it (whatever that build's outcome), and has no
  completion of an \<^verbatim>\<open>edit\<close> or \<^verbatim>\<open>create\<close> tool with an end time strictly between the
  end time of the build before and its own start time.
\<close>

theorem redundant_builds_count:
  "count_redundant_builds builds tcs =
     card {k. 0 < k \<and> k < length builds
            \<and> get_success (builds ! k)
            \<and> take 80 (dl_command (builds ! k)) = take 80 (dl_command (builds ! (k - 1)))
            \<and> \<not> (\<exists>tc \<in> set tcs. (tc_name tc = ''edit'' \<or> tc_name tc = ''create'')
                    \<and> prev_end (builds ! (k - 1)) < tc_endTime tc
                    \<and> tc_endTime tc < dl_startTime (builds ! k))}"
proof -
  let ?R = "\<lambda>k. get_success (builds ! k)
            \<and> take 80 (dl_command (builds ! k)) = take 80 (dl_command (builds ! (k - 1)))
            \<and> \<not> (\<exists>tc \<in> set tcs. (tc_name tc = ''edit'' \<or> tc_name tc = ''create'')
                    \<and> prev_end (builds ! (k - 1)) < tc_endTime tc
                    \<and> tc_endTime tc < dl_startTime (builds ! k))"
  have "count_redundant_builds builds tcs = length (filter ?R [1..<length builds])"
    unfolding count_redundant_builds_zip zip_tl_nth filter_map length_map edits_between_iff
    by (rule arg_cong [where f = "\<lambda>P. length (filter P [1..<length builds])"]) (auto simp add: fun_eq_iff)
  then show ?thesis
    by (simp only: length_filter_upt_card)
qed

theorem redundant_builds_count_witness:
  "count_redundant_builds
     [build_action ''dotnet build'' ''T1'' ''T2'' False, build_action ''dotnet build'' ''T3'' ''T4'' False,
      build_action ''dotnet build -c Release'' ''T5'' ''T6'' True,
      build_action ''dotnet build -c Release'' ''T7'' ''T8'' True] [] = 1
   \<and> count_redundant_builds
       [build_action ''dotnet build -c Release'' ''T5'' ''T6'' True,
        build_action ''dotnet build -c Release'' ''T7'' ''T8'' True]
       [edit_complete ''edit'' ''T6a''] = 0
   \<and> count_redundant_builds
       [build_action ''make'' ''T1'' ''T2'' False, build_action ''make'' ''T3'' ''T4'' True]
       [edit_complete ''edit'' ''T2'', edit_complete ''view'' ''T2a''] = 1"
  using redundant_builds_count
    [of "[build_action ''dotnet build'' ''T1'' ''T2'' False,
          build_action ''dotnet build'' ''T3'' ''T4'' False,
          build_action ''dotnet build -c Release'' ''T5'' ''T6'' True,
          build_action ''dotnet build -c Release'' ''T7'' ''T8'' True]" "[]"]
  by (simp add: count_redundant_builds_def build_action_def get_success_def edits_between_def
      edit_timestamps_def prev_end_def edit_complete_def)

section \<open>Telemetry block extractor: properties\<close>

text \<open>
  While no block has started, a line that is no block start is stepped over: the inner
  loop goes on as if the line were not there, and so does the whole scan.
\<close>

lemma collect_block_skip:
  "\<not> is_block_start (strip_timestamp line) \<Longrightarrow>
     collect_block (line # rest) [] 0 False = collect_block rest [] 0 False"
  by (simp add: Let_def)

lemma find_blocks_skip:
  "contains line MARKER \<Longrightarrow> \<not> is_block_start (strip_timestamp noise) \<Longrightarrow>
     find_blocks (line # noise # rest) = find_blocks (line # rest)"
  using collect_block_skip [of noise rest] by simp

text \<open>
  Claim C2 says that in SEEKING_BLOCK a line that is no block start ends the marker
  occurrence. The loop has a \<^verbatim>\<open>break\<close> for it, but under \<^verbatim>\<open>elif started\<close> behind
  \<^verbatim>\<open>if started\<close>, where it is never reached: with a log line between the marker and the
  block, the block is still collected for that marker.
\<close>

theorem find_blocks_noise_then_block:
  "find_blocks
     [''2026-02-20T12:00:00.000Z [INFO] [Telemetry] cli.telemetry:'',
      ''2026-02-20T12:00:00.001Z [INFO] flushing'',
      ''{\"kind\": \"assistant_usage\"}'']
   = [[''{\"kind\": \"assistant_usage\"}'']]"
  by code_simp

end
